theory Spec2Isabelle
  imports Main "HOL-Library.AList"
begin

section \<open>JavaScript values\<close>

text \<open>
  The values that travel through \<^verbatim>\<open>useRouteQuery\<close> are JavaScript values. A query value
  (\<^verbatim>\<open>GetQueryValue\<close>, \<^verbatim>\<open>SetQueryValue\<close> of \<^verbatim>\<open>src/types/index.ts\<close>) is \<^verbatim>\<open>undefined\<close>,
  \<^verbatim>\<open>null\<close>, a string, or an array of those. The typed value \<^verbatim>\<open>T\<close> is any JavaScript value,
  and the default transforms are the casts \<^verbatim>\<open>v as T\<close> and \<^verbatim>\<open>v as SetQueryValue\<close>, which do
  nothing at run time, so raw and typed values live in one type. \<open>NaN\<close> is the number that
  \<^verbatim>\<open>===\<close> does not find equal to itself. \<open>Inherited n\<close> is the member called \<open>n\<close> of
  \<^verbatim>\<open>Object.prototype\<close>, which a plain object yields under a name it does not hold itself.
  \<open>Other\<close> stands for every remaining value that is not an array (a number other than
  NaN, a boolean, an object reference); its parameter identifies the value up to \<^verbatim>\<open>===\<close>.
  An array has a length and, at each index below it, an element or a hole (\<open>None\<close>).
\<close>

datatype 'o scalar = Undefined | Null | Str string | NaN | Inherited string | Other 'o

datatype 'o jsval = Scalar "'o scalar" | Arr "'o scalar option list"

text \<open>A thrown value is a JavaScript value: \<open>Inl\<close> is a throw, \<open>Inr\<close> a normal return.\<close>

type_synonym ('o, 'a) completion = "'o jsval + 'a"

section \<open>\<^verbatim>\<open>src/utils/areQueryValuesEqual.ts\<close>\<close>

definition strictEquals :: "'o scalar \<Rightarrow> 'o scalar \<Rightarrow> bool" where
  \<comment> \<open>\<^verbatim>\<open>a === b\<close> on values that are not arrays\<close>
  "strictEquals a b = (a = b \<and> a \<noteq> NaN)"

definition element :: "'o scalar option list \<Rightarrow> nat \<Rightarrow> 'o scalar" where
  \<comment> \<open>\<^verbatim>\<open>b[idx]\<close> for an index below the length: a hole reads as \<^verbatim>\<open>undefined\<close>\<close>
  "element b idx = (case b ! idx of None \<Rightarrow> Undefined | Some v \<Rightarrow> v)"

text \<open>
  \<^verbatim>\<open>a.every((val, idx) => val === b[idx])\<close> walks the indices of \<open>a\<close> and calls the
  function at those that hold an element, not at the holes; it is only reached when both
  arrays have the same length, so \<open>b ! idx\<close> is in range. In the last line,
  \<^verbatim>\<open>a === b\<close>, at most one of the two is an array, and an array is not \<^verbatim>\<open>===\<close> to a value
  that is not one.
\<close>

fun areQueryValuesEqual :: "'o jsval \<Rightarrow> 'o jsval \<Rightarrow> bool" where
  "areQueryValuesEqual (Arr a) (Arr b) =
     (if length a \<noteq> length b then False
      else list_all (\<lambda>(idx, el). case el of None \<Rightarrow> True | Some val \<Rightarrow> strictEquals val (element b idx))
             (List.enumerate 0 a))"
| "areQueryValuesEqual (Scalar a) (Scalar b) = strictEquals a b"
| "areQueryValuesEqual a b = False"

section \<open>Route, router and the shared queue\<close>

text \<open>
  A JavaScript object with string keys (\<^verbatim>\<open>route.query\<close>, \<^verbatim>\<open>route.params\<close>) is the
  association list of its own properties in insertion order, and it inherits the members
  of \<^verbatim>\<open>Object.prototype\<close>. A \<^verbatim>\<open>Map<string, SetQueryValue>\<close> is an association list in
  insertion order, and \<^verbatim>\<open>map.set(key, value)\<close> is \<^const>\<open>AList.update\<close> (replace in place,
  or append).
\<close>

type_synonym 'o dict = "(string \<times> 'o jsval) list"

definition objectPrototypeNames :: "string list" where
  "objectPrototypeNames =
     [''constructor'', ''__defineGetter__'', ''__defineSetter__'', ''hasOwnProperty'',
      ''__lookupGetter__'', ''__lookupSetter__'', ''isPrototypeOf'', ''propertyIsEnumerable'',
      ''toString'', ''valueOf'', ''__proto__'', ''toLocaleString'']"

definition has_key :: "'o dict \<Rightarrow> string \<Rightarrow> bool" where
  \<comment> \<open>\<^verbatim>\<open>key in obj\<close>: own and inherited properties\<close>
  "has_key obj key = (key \<in> set (map fst obj) \<or> key \<in> set objectPrototypeNames)"

definition lookup :: "'o dict \<Rightarrow> string \<Rightarrow> 'o jsval" where
  \<comment> \<open>\<^verbatim>\<open>obj[key]\<close>: the own property, else the inherited one, else \<^verbatim>\<open>undefined\<close>\<close>
  "lookup obj key =
     (case map_of obj key of
        Some v \<Rightarrow> v
      | None \<Rightarrow> if key \<in> set objectPrototypeNames then Scalar (Inherited key)
                else Scalar Undefined)"

definition assignProperty :: "string \<Rightarrow> 'o jsval \<Rightarrow> 'o dict \<Rightarrow> 'o dict" where
  \<comment> \<open>\<^verbatim>\<open>obj[key] = value\<close>: replaces or appends the own property; under the name
      \<^verbatim>\<open>__proto__\<close>, unless the object holds it itself, the inherited setter runs and the
      object gets no property\<close>
  "assignProperty key val obj =
     (if key = ''__proto__'' \<and> key \<notin> set (map fst obj) then obj
      else AList.update key val obj)"

text \<open>The fields of the route object that the code reads.\<close>

record 'o location =
  params :: "'o dict"
  query :: "'o dict"
  hash :: string

datatype mode = Push | Replace

text \<open>
  The closure handed to \<^verbatim>\<open>nextTick\<close> in \<^verbatim>\<open>set\<close> captures the instance's \<^verbatim>\<open>route\<close>,
  \<^verbatim>\<open>router\<close> (and with it \<^verbatim>\<open>queriesQueue\<close>) and \<^verbatim>\<open>mode\<close>. Routes and routers are
  objects compared by reference: they are named by numbers.
\<close>

record tick =
  tickRoute :: nat
  tickRouter :: nat
  tickMode :: mode

text \<open>
  The state shared by all instances: \<open>queue\<close> is the module-level
  \<^verbatim>\<open>_queue: WeakMap<Router, Map<string, SetQueryValue>>\<close>; \<open>routes\<close> gives the current
  contents of every reactive route object; \<open>ticks\<close> holds the callbacks passed to
  \<^verbatim>\<open>nextTick\<close> that have not run yet, oldest first; \<open>calls\<close> records every call
  \<^verbatim>\<open>router[mode](location)\<close>, oldest first; and \<open>pendingAtCall\<close> records, for each of
  these calls, the pending set of the called router as the call finds it.
\<close>

record 'o env =
  queue :: "(nat \<times> 'o dict) list"
  routes :: "nat \<Rightarrow> 'o location"
  ticks :: "tick list"
  calls :: "(nat \<times> mode \<times> 'o location) list"
  pendingAtCall :: "'o dict list"

definition queriesQueue :: "'o env \<Rightarrow> nat \<Rightarrow> 'o dict" where
  \<comment> \<open>\<^verbatim>\<open>_queue.get(router)!\<close>; every instance creates the entry before it reads it\<close>
  "queriesQueue e rr = (case map_of (queue e) rr of None \<Rightarrow> [] | Some q \<Rightarrow> q)"

definition setQueriesQueue :: "nat \<Rightarrow> 'o dict \<Rightarrow> 'o env \<Rightarrow> 'o env" where
  "setQueriesQueue rr q e = e\<lparr>queue := AList.update rr q (queue e)\<rparr>"

definition routerCall :: "nat \<Rightarrow> mode \<Rightarrow> 'o location \<Rightarrow> 'o env \<Rightarrow> 'o env" where
  \<comment> \<open>\<^verbatim>\<open>router[mode]({ params, query, hash })\<close>: the router is external, the call is
      recorded, with the pending set it could read\<close>
  "routerCall rr m loc e =
     e\<lparr>calls := calls e @ [(rr, m, loc)],
       pendingAtCall := pendingAtCall e @ [queriesQueue e rr]\<rparr>"

section \<open>\<^verbatim>\<open>src/useRouteQuery.ts\<close>\<close>

text \<open>
  \<^verbatim>\<open>MaybeRefOrGetter<T>\<close>: a plain value, or a ref or getter, which \<^verbatim>\<open>toValue\<close> reads
  again at every call against the reactive state \<open>'w\<close> of the application (and which,
  being user code, may throw).
\<close>

datatype ('o, 'w) MaybeRefOrGetter =
  Plain "'o jsval"
| RefOrGetter "'w \<Rightarrow> ('o, 'o jsval) completion"

fun toValue :: "'w \<Rightarrow> ('o, 'w) MaybeRefOrGetter \<Rightarrow> ('o, 'o jsval) completion" where
  "toValue w (Plain v) = Inr v"
| "toValue w (RefOrGetter g) = g w"

text \<open>\<^verbatim>\<open>RouteQueryTransform\<close> and \<^verbatim>\<open>RouteQueryOptions\<close>; a field left out is \<open>None\<close>.\<close>

record 'o RouteQueryTransform =
  transform_get :: "('o jsval \<Rightarrow> ('o, 'o jsval) completion) option"
  transform_set :: "('o jsval \<Rightarrow> ('o, 'o jsval) completion) option"

record 'o RouteQueryOptions =
  opt_mode :: "mode option"
  opt_route :: "nat option"
  opt_router :: "nat option"
  opt_transform :: "'o RouteQueryTransform option"

text \<open>
  What the surrounding Vue application provides at the call: the results of
  \<^verbatim>\<open>useRoute()\<close> and \<^verbatim>\<open>useRouter()\<close>, the active effect scope, if any, and the
  scopes that enclose it (the scopes that, when stopped, stop the active one).
\<close>

record ambient =
  useRoute :: nat
  useRouter :: nat
  getCurrentScope :: "nat option"
  parentScopes :: "nat list"

text \<open>The constants that the closures of one \<^verbatim>\<open>useRouteQuery\<close> call capture.\<close>

record ('o, 'w) config =
  name :: string
  defaultValue :: "('o, 'w) MaybeRefOrGetter"
  mode :: mode
  route :: nat
  router :: nat
  transformFromQuery :: "'o jsval \<Rightarrow> ('o, 'o jsval) completion"
  transformToQuery :: "'o jsval \<Rightarrow> ('o, 'o jsval) completion"
  scope :: "nat option"
  enclosingScopes :: "nat list"
  disposeRegistered :: bool

text \<open>
  The variables that those closures mutate: \<^verbatim>\<open>cachedValue\<close> and \<^verbatim>\<open>cachedRawValue\<close>
  (a \<^verbatim>\<open>let\<close> without initialiser holds \<^verbatim>\<open>undefined\<close>). Two fields stand for the reactive
  machinery around them: \<open>triggered\<close> counts the calls of the \<^verbatim>\<open>customRef\<close>'s
  \<^verbatim>\<open>trigger\<close>, and \<open>watcherActive\<close> says whether the watcher created by \<^verbatim>\<open>watch\<close> still
  runs.
\<close>

record 'o cache =
  cachedValue :: "'o jsval"
  cachedRawValue :: "'o jsval"
  triggered :: nat
  watcherActive :: bool

definition identityTransform :: "'o jsval \<Rightarrow> ('o, 'o jsval) completion" where
  \<comment> \<open>\<^verbatim>\<open>(v) => v as T\<close> and \<^verbatim>\<open>(v) => v as SetQueryValue\<close>\<close>
  "identityTransform v = Inr v"

definition tryOnScopeDispose :: "nat option \<Rightarrow> bool" where
  \<comment> \<open>registers the callback in the current scope and returns true, if there is a scope\<close>
  "tryOnScopeDispose currentScope = (case currentScope of Some sc \<Rightarrow> True | None \<Rightarrow> False)"

definition useRouteQuery ::
  "string \<Rightarrow> ('o, 'w) MaybeRefOrGetter \<Rightarrow> 'o RouteQueryOptions \<Rightarrow> ambient \<Rightarrow> 'o env
     \<Rightarrow> ('o, ('o, 'w) config \<times> 'o cache) completion \<times> 'o env" where
  "useRouteQuery nm dv options amb e =
     (let md = (case opt_mode options of None \<Rightarrow> Push | Some m \<Rightarrow> m);
          rt = (case opt_route options of None \<Rightarrow> useRoute amb | Some r \<Rightarrow> r);
          rr = (case opt_router options of None \<Rightarrow> useRouter amb | Some r \<Rightarrow> r);
          fromQuery = (case opt_transform options of None \<Rightarrow> identityTransform
                       | Some t \<Rightarrow> (case transform_get t of None \<Rightarrow> identityTransform
                                    | Some g \<Rightarrow> g));
          toQuery = (case opt_transform options of None \<Rightarrow> identityTransform
                     | Some t \<Rightarrow> (case transform_set t of None \<Rightarrow> identityTransform
                                  | Some g \<Rightarrow> g));
          e1 = (if map_of (queue e) rr = None then setQueriesQueue rr [] e else e);
          cfg = \<lparr>name = nm, defaultValue = dv, mode = md, route = rt, router = rr,
                 transformFromQuery = fromQuery, transformToQuery = toQuery,
                 scope = getCurrentScope amb, enclosingScopes = parentScopes amb,
                 disposeRegistered = tryOnScopeDispose (getCurrentScope amb)\<rparr>;
          c = \<lparr>cachedValue = Scalar Undefined, cachedRawValue = Scalar Undefined,
               triggered = 0, watcherActive = True\<rparr>
      in if has_key (query (routes e1 rt)) nm then
           (let initialQueryValue = lookup (query (routes e1 rt)) nm
            in case fromQuery initialQueryValue of
                 Inl ex \<Rightarrow> (Inl ex, e1)
               | Inr v \<Rightarrow>
                   (Inr (cfg, c\<lparr>cachedValue := v, cachedRawValue := initialQueryValue\<rparr>), e1))
         else (Inr (cfg, c), e1))"

text \<open>
  The \<^verbatim>\<open>get\<close> of the \<^verbatim>\<open>customRef\<close>. \<^verbatim>\<open>track()\<close> belongs to the reactive machinery and
  changes nothing that is modelled here.
\<close>

definition proxy_get :: "('o, 'w) config \<Rightarrow> 'w \<Rightarrow> 'o cache \<Rightarrow> ('o, 'o jsval) completion" where
  "proxy_get cfg w c =
     (if cachedValue c \<noteq> Scalar Undefined then Inr (cachedValue c)
      else toValue w (defaultValue cfg))"

text \<open>
  The \<^verbatim>\<open>set\<close> of the \<^verbatim>\<open>customRef\<close>, up to and including the call of \<^verbatim>\<open>nextTick\<close>, which
  only stores its callback.
\<close>

definition proxy_set ::
  "('o, 'w) config \<Rightarrow> 'o jsval \<Rightarrow> 'o cache \<times> 'o env \<Rightarrow> ('o, unit) completion \<times> 'o cache \<times> 'o env" where
  "proxy_set cfg newValue s =
     (case s of (c, e) \<Rightarrow>
       (case transformToQuery cfg newValue of
          Inl ex \<Rightarrow> (Inl ex, c, e)
        | Inr newQueryRawValue \<Rightarrow>
            if areQueryValuesEqual newQueryRawValue (cachedRawValue c) then (Inr (), c, e)
            else
              (Inr (),
               c\<lparr>cachedValue := newValue, cachedRawValue := newQueryRawValue,
                 triggered := Suc (triggered c)\<rparr>,
               (setQueriesQueue (router cfg)
                  (AList.update (name cfg) newQueryRawValue (queriesQueue e (router cfg))) e)
                 \<lparr>ticks := ticks e @
                    [\<lparr>tickRoute = route cfg, tickRouter = router cfg, tickMode = mode cfg\<rparr>]\<rparr>)))"

text \<open>
  The callback that \<^verbatim>\<open>set\<close> passes to \<^verbatim>\<open>nextTick\<close>. \<^verbatim>\<open>{ ...query }\<close> copies the own
  properties; each \<^verbatim>\<open>newQueries[key] = value\<close> is an assignment to that plain object.
\<close>

definition flushCallback :: "tick \<Rightarrow> 'o env \<Rightarrow> 'o env" where
  "flushCallback t e =
     (if length (queriesQueue e (tickRouter t)) = 0 then e
      else
        (let rt = routes e (tickRoute t);
             newQueries = fold (\<lambda>(key, val) q. assignProperty key val q)
                            (queriesQueue e (tickRouter t)) (query rt)
         in routerCall (tickRouter t) (tickMode t)
              \<lparr>params = params rt, query = newQueries, hash = hash rt\<rparr>
              (setQueriesQueue (tickRouter t) [] e)))"

text \<open>
  The scheduler's next tick: the stored callbacks run in the order in which \<^verbatim>\<open>nextTick\<close>
  received them.
\<close>

fun runTicks :: "tick list \<Rightarrow> 'o env \<Rightarrow> 'o env" where
  "runTicks [] e = e"
| "runTicks (t # ts) e = runTicks ts (flushCallback t e)"

definition flushTicks :: "'o env \<Rightarrow> 'o env" where
  "flushTicks e = runTicks (ticks e) (e\<lparr>ticks := []\<rparr>)"

text \<open>The callback of \<^verbatim>\<open>watch(() => route.query[name], ..., { flush: "sync" })\<close>.\<close>

definition watchCallback ::
  "('o, 'w) config \<Rightarrow> 'o jsval \<Rightarrow> 'o cache \<times> 'o env \<Rightarrow> ('o, unit) completion \<times> 'o cache \<times> 'o env" where
  "watchCallback cfg newQueryString s =
     (case s of (c, e) \<Rightarrow>
       if areQueryValuesEqual newQueryString (cachedRawValue c) then (Inr (), c, e)
       else
         (let c1 = c\<lparr>cachedRawValue := newQueryString\<rparr>
          in if newQueryString \<noteq> Scalar Undefined then
               (case transformFromQuery cfg newQueryString of
                  Inl ex \<Rightarrow> (Inl ex, c1, e)
                | Inr v \<Rightarrow> (Inr (), c1\<lparr>cachedValue := v, triggered := Suc (triggered c1)\<rparr>, e))
             else
               (Inr (), c1\<lparr>cachedValue := Scalar Undefined, triggered := Suc (triggered c1)\<rparr>, e)))"

text \<open>
  Vue calls the callback of a watcher only while the watcher is active: a change of
  \<^verbatim>\<open>route.query[name]\<close> to \<open>v\<close> reaches the instance as follows.
\<close>

definition externalChange ::
  "('o, 'w) config \<Rightarrow> 'o jsval \<Rightarrow> 'o cache \<times> 'o env \<Rightarrow> ('o, unit) completion \<times> 'o cache \<times> 'o env" where
  "externalChange cfg v s =
     (case s of (c, e) \<Rightarrow> if watcherActive c then watchCallback cfg v (c, e) else (Inr (), c, e))"

text \<open>The callback given to \<^verbatim>\<open>tryOnScopeDispose\<close>.\<close>

definition disposeCallback :: "'o cache \<Rightarrow> 'o cache" where
  "disposeCallback c = c\<lparr>cachedValue := Scalar Undefined, cachedRawValue := Scalar Undefined\<rparr>"



section \<open>Scenarios of the test suite\<close>

text \<open>
  The tests build a route with \<^verbatim>\<open>getRoute(query)\<close> and pass \<^verbatim>\<open>{ route, router }\<close>; there
  is one route object and one router, both numbered 0, and no effect scope unless the test
  opens one. In these scenarios an object is a reference paired with its JSON text.
\<close>

type_synonym obj = "nat \<times> string"

definition getRoute :: "obj dict \<Rightarrow> obj location" where
  "getRoute q = \<lparr>params = [], query = q, hash = ''''\<rparr>"

definition testEnv :: "obj location \<Rightarrow> obj env" where
  "testEnv r =
     \<lparr>queue = [], routes = (\<lambda>rt. r), ticks = [], calls = [], pendingAtCall = []\<rparr>"

definition testOptions :: "obj RouteQueryOptions" where
  "testOptions = \<lparr>opt_mode = None, opt_route = Some 0, opt_router = Some 0, opt_transform = None\<rparr>"

definition testAmbient :: "nat option \<Rightarrow> ambient" where
  "testAmbient sc =
     \<lparr>useRoute = 0, useRouter = 0, getCurrentScope = sc, parentScopes = []\<rparr>"

text \<open>
  \<^verbatim>\<open>useRouteQuery("search", "default", { route, router })\<close> on the route
  \<^verbatim>\<open>{ search: "vue3" }\<close> ("should support setting to undefined or null").
\<close>

definition searchConfig :: "(obj, unit) config" where
  "searchConfig =
     \<lparr>name = ''search'', defaultValue = Plain (Scalar (Str ''default'')), mode = Push,
      route = 0, router = 0,
      transformFromQuery = identityTransform, transformToQuery = identityTransform,
      scope = None, enclosingScopes = [], disposeRegistered = False\<rparr>"

definition searchCache :: "obj cache" where
  "searchCache =
     \<lparr>cachedValue = Scalar (Str ''vue3''), cachedRawValue = Scalar (Str ''vue3''),
      triggered = 0, watcherActive = True\<rparr>"

definition searchEnv :: "obj env" where
  "searchEnv = (testEnv (getRoute [(''search'', Scalar (Str ''vue3''))]))\<lparr>queue := [(0, [])]\<rparr>"

text \<open>
  \<^verbatim>\<open>useRouteQuery("serialized", undefined, { transform, router, route })\<close> with
  \<^verbatim>\<open>get: JSON.parse\<close> and \<^verbatim>\<open>set: JSON.stringify\<close> ("should handle transform get/set"),
  here on the route \<^verbatim>\<open>{ serialized: "{}" }\<close>. The two functions are given on the values
  that occur in the scenario (objects, \<^verbatim>\<open>null\<close>, \<^verbatim>\<open>undefined\<close> and their JSON texts); the
  one call of \<open>parse\<close>, at construction, yields the object number 1.
\<close>

fun stringify :: "obj jsval \<Rightarrow> (obj, obj jsval) completion" where
  "stringify (Scalar (Other (r, text))) = Inr (Scalar (Str text))"
| "stringify (Scalar Null) = Inr (Scalar (Str ''null''))"
| "stringify v = Inr (Scalar Undefined)"

fun parse :: "obj jsval \<Rightarrow> (obj, obj jsval) completion" where
  "parse (Scalar (Str text)) =
     (if text = ''{}'' then Inr (Scalar (Other (1, text)))
      else if text = ''null'' then Inr (Scalar Null)
      else Inl (Scalar (Str ''SyntaxError'')))"
| "parse v = Inl (Scalar (Str ''SyntaxError''))"

definition serializedOptions :: "obj RouteQueryOptions" where
  "serializedOptions =
     testOptions\<lparr>opt_transform := Some \<lparr>transform_get = Some parse, transform_set = Some stringify\<rparr>\<rparr>"

definition serializedConfig :: "(obj, unit) config" where
  "serializedConfig =
     \<lparr>name = ''serialized'', defaultValue = Plain (Scalar Undefined), mode = Push,
      route = 0, router = 0,
      transformFromQuery = parse, transformToQuery = stringify,
      scope = None, enclosingScopes = [], disposeRegistered = False\<rparr>"

definition serializedCache :: "obj cache" where
  "serializedCache =
     \<lparr>cachedValue = Scalar (Other (1, ''{}'')), cachedRawValue = Scalar (Str ''{}''),
      triggered = 0, watcherActive = True\<rparr>"

definition serializedEnv :: "obj env" where
  "serializedEnv = (testEnv (getRoute [(''serialized'', Scalar (Str ''{}''))]))\<lparr>queue := [(0, [])]\<rparr>"

text \<open>
  \<^verbatim>\<open>a = useRouteQuery("a", "", { route, router })\<close> and the same for \<^verbatim>\<open>"b"\<close>, on the
  empty route; then \<^verbatim>\<open>a.value = "1"; b.value = "2"\<close> ("should skip router update when queue
  is empty"). The mode of \<open>b\<close> is left open.
\<close>

definition unsetCache :: "obj cache" where
  "unsetCache =
     \<lparr>cachedValue = Scalar Undefined, cachedRawValue = Scalar Undefined,
      triggered = 0, watcherActive = True\<rparr>"

definition aConfig :: "(obj, unit) config" where
  "aConfig =
     \<lparr>name = ''a'', defaultValue = Plain (Scalar (Str '''')), mode = Push,
      route = 0, router = 0,
      transformFromQuery = identityTransform, transformToQuery = identityTransform,
      scope = None, enclosingScopes = [], disposeRegistered = False\<rparr>"

definition bConfig :: "mode \<Rightarrow> (obj, unit) config" where
  "bConfig m = aConfig\<lparr>name := ''b'', mode := m\<rparr>"

definition abEnv :: "obj env" where
  "abEnv = (testEnv (getRoute []))\<lparr>queue := [(0, [])]\<rparr>"

definition afterA :: "obj env" where
  "afterA = snd (snd (proxy_set aConfig (Scalar (Str ''1'')) (unsetCache, abEnv)))"

definition writeBoth :: "mode \<Rightarrow> obj env" where
  "writeBoth m = snd (snd (proxy_set (bConfig m) (Scalar (Str ''2'')) (unsetCache, afterA)))"

text \<open>
  \<^verbatim>\<open>useRouteQuery("toString", "default", { route, router })\<close> on the empty route: the
  query holds no field of that name, and \<^verbatim>\<open>"toString" in route.query\<close> is true.
\<close>

definition toStringConfig :: "(obj, unit) config" where
  "toStringConfig = searchConfig\<lparr>name := ''toString''\<rparr>"

definition toStringCache :: "obj cache" where
  "toStringCache =
     \<lparr>cachedValue = Scalar (Inherited ''toString''),
      cachedRawValue = Scalar (Inherited ''toString''),
      triggered = 0, watcherActive = True\<rparr>"

text \<open>
  A third synchronizer on the route and router of \<open>a\<close> and \<open>b\<close>,
  \<^verbatim>\<open>useRouteQuery("__proto__", "", { route, router })\<close>, written after \<open>a\<close>:
  \<^verbatim>\<open>a.value = "1"; p.value = "2"\<close>. Its mode is left open.
\<close>

definition protoConfig :: "mode \<Rightarrow> (obj, unit) config" where
  "protoConfig m = aConfig\<lparr>name := ''__proto__'', mode := m\<rparr>"

definition protoCache :: "obj cache" where
  "protoCache =
     \<lparr>cachedValue = Scalar (Inherited ''__proto__''),
      cachedRawValue = Scalar (Inherited ''__proto__''),
      triggered = 0, watcherActive = True\<rparr>"

definition writeProto :: "mode \<Rightarrow> obj env" where
  "writeProto m =
     snd (snd (proxy_set (protoConfig m) (Scalar (Str ''2'')) (protoCache, afterA)))"

text \<open>
  The instance of the first scenario created inside the effect scope 7, which the scope 3
  encloses ("should handle dispose scope").
\<close>

definition scopedAmbient :: ambient where
  "scopedAmbient = (testAmbient (Some 7))\<lparr>parentScopes := [3]\<rparr>"

definition scopedConfig :: "(obj, unit) config" where
  "scopedConfig =
     searchConfig\<lparr>scope := Some 7, enclosingScopes := [3], disposeRegistered := True\<rparr>"

section \<open>Counting the calls of a router\<close>

definition commitsTo :: "nat \<Rightarrow> 'o env \<Rightarrow> nat" where
  "commitsTo rr e = length (filter (\<lambda>cl. fst cl = rr) (calls e))"

section \<open>Equality of query values\<close>

lemma every_nth:
  "list_all (\<lambda>(idx, el). P idx el) (List.enumerate n a) \<longleftrightarrow>
     (\<forall>i < length a. P (n + i) (a ! i))"
proof (induction a arbitrary: n)
  case Nil
  then show ?case by simp
next
  case (Cons x xs)
  have "(\<forall>i < length (x # xs). P (n + i) ((x # xs) ! i)) \<longleftrightarrow>
        P n x \<and> (\<forall>i < length xs. P (Suc n + i) (xs ! i))"
    by (auto simp: nth_Cons less_Suc_eq_0_disj)
  with Cons.IH [of "Suc n"] show ?case by simp
qed

lemma areQueryValuesEqual_arrays:
  "areQueryValuesEqual (Arr a) (Arr b) \<longleftrightarrow>
     length a = length b
     \<and> (\<forall>i < length a. case a ! i of None \<Rightarrow> True
                                  | Some val \<Rightarrow> strictEquals val (element b i))"
proof -
  have "list_all (\<lambda>(idx, el). case el of None \<Rightarrow> True
                               | Some val \<Rightarrow> strictEquals val (element b idx))
          (List.enumerate 0 a)
        \<longleftrightarrow> (\<forall>i < length a. case a ! i of None \<Rightarrow> True
                                     | Some val \<Rightarrow> strictEquals val (element b (0 + i)))"
    by (rule every_nth)
  then show ?thesis
    by (simp cong: option.case_cong)
qed

lemma strictEquals_sym: "strictEquals a b = strictEquals b a"
  by (auto simp: strictEquals_def)

lemma strictEquals_refl: "strictEquals a a \<longleftrightarrow> a \<noteq> NaN"
  by (simp add: strictEquals_def)

text \<open>The oracle finds a value equal to itself unless NaN occurs in it.\<close>

lemma areQueryValuesEqual_refl:
  "areQueryValuesEqual v v \<longleftrightarrow>
     (case v of Scalar s \<Rightarrow> s \<noteq> NaN | Arr xs \<Rightarrow> Some NaN \<notin> set xs)"
proof (cases v)
  case (Scalar s)
  then show ?thesis by (simp add: strictEquals_refl)
next
  case (Arr xs)
  have "(\<forall>i < length xs. case xs ! i of None \<Rightarrow> True
                                   | Some val \<Rightarrow> strictEquals val (element xs i))
        \<longleftrightarrow> (\<forall>i < length xs. xs ! i \<noteq> Some NaN)"
    by (auto simp: element_def strictEquals_def split: option.splits)
  also have "\<dots> \<longleftrightarrow> Some NaN \<notin> set xs"
    by (auto simp: in_set_conv_nth)
  finally have "areQueryValuesEqual (Arr xs) (Arr xs) \<longleftrightarrow> Some NaN \<notin> set xs"
    unfolding areQueryValuesEqual_arrays by simp
  with Arr show ?thesis by simp
qed

text \<open>On arrays without holes, and on values that are not arrays, it is symmetric.\<close>

lemma areQueryValuesEqual_dense:
  assumes "None \<notin> set a" and "None \<notin> set b"
  shows "areQueryValuesEqual (Arr a) (Arr b) \<longleftrightarrow> a = b \<and> Some NaN \<notin> set a"
proof
  assume eq: "areQueryValuesEqual (Arr a) (Arr b)"
  then have len: "length a = length b"
    and elems: "\<And>i. i < length a \<Longrightarrow>
      (case a ! i of None \<Rightarrow> True | Some val \<Rightarrow> strictEquals val (element b i))"
    unfolding areQueryValuesEqual_arrays by simp_all
  have same: "a ! i = b ! i \<and> a ! i \<noteq> Some NaN" if i: "i < length a" for i
  proof -
    from i assms(1) obtain x where x: "a ! i = Some x"
      by (metis nth_mem option.exhaust)
    from i len assms(2) obtain y where y: "b ! i = Some y"
      by (metis nth_mem option.exhaust)
    from elems [OF i] x y show ?thesis
      by (auto simp: element_def strictEquals_def)
  qed
  then have "a = b"
    using len by (simp add: list_eq_iff_nth_eq)
  moreover have "Some NaN \<notin> set a"
    using same by (metis in_set_conv_nth)
  ultimately show "a = b \<and> Some NaN \<notin> set a" by simp
next
  assume "a = b \<and> Some NaN \<notin> set a"
  then show "areQueryValuesEqual (Arr a) (Arr b)"
    using areQueryValuesEqual_refl [of "Arr a"] by auto
qed

lemma areQueryValuesEqual_dense_sym:
  assumes "None \<notin> set a" and "None \<notin> set b"
  shows "areQueryValuesEqual (Arr a) (Arr b) = areQueryValuesEqual (Arr b) (Arr a)"
  using areQueryValuesEqual_dense [OF assms] areQueryValuesEqual_dense [OF assms(2) assms(1)]
  by auto

lemma areQueryValuesEqual_scalar_sym:
  "areQueryValuesEqual (Scalar a) v = areQueryValuesEqual v (Scalar a)"
  by (cases v) (simp_all add: strictEquals_sym)

lemma areQueryValuesEqual_fixed_points:
  "length xs \<noteq> length ys \<Longrightarrow> \<not> areQueryValuesEqual (Arr xs) (Arr ys)"
  "areQueryValuesEqual (Scalar Undefined) (Scalar Undefined)"
  "\<not> areQueryValuesEqual (Scalar Undefined) (Scalar (Str ''''))"
  "\<not> areQueryValuesEqual (Arr xs) (Scalar s)"
  "\<not> areQueryValuesEqual (Scalar s) (Arr xs)"
  by (simp_all add: strictEquals_def)

text \<open>
  C4. The oracle is not symmetric on all pairs: \<^verbatim>\<open>every\<close> does not visit a hole, so an
  array of length 1 that holds only a hole is found equal to \<^verbatim>\<open>[null]\<close>, and \<^verbatim>\<open>[null]\<close>
  is not found equal to it (\<^verbatim>\<open>null === undefined\<close> is false). The other parts of C4 hold:
  arrays of different length are never equal, \<^verbatim>\<open>undefined\<close> equals \<^verbatim>\<open>undefined\<close> and not
  the empty string, and an array never equals a value that is not one.
\<close>

theorem areQueryValuesEqual_sparse_asymmetric:
  "areQueryValuesEqual (Arr [None]) (Arr [Some (Null :: obj scalar)])
   \<and> \<not> areQueryValuesEqual (Arr [Some (Null :: obj scalar)]) (Arr [None])
   \<and> \<not> areQueryValuesEqual (Arr [Some Null]) (Arr [Some Null, Some (Null :: obj scalar)])
   \<and> areQueryValuesEqual (Scalar Undefined) (Scalar (Undefined :: obj scalar))
   \<and> \<not> areQueryValuesEqual (Scalar Undefined) (Scalar (Str '''' :: obj scalar))
   \<and> \<not> areQueryValuesEqual (Arr [Some Null]) (Scalar (Null :: obj scalar))"
  by (simp add: strictEquals_def element_def)

declare strictEquals_def [simp] element_def [simp]

section \<open>The shared queue and the scenarios\<close>

lemma queriesQueue_setQueriesQueue:
  "queriesQueue (setQueriesQueue rr q e) r' = (if r' = rr then q else queriesQueue e r')"
  by (simp add: queriesQueue_def setQueriesQueue_def update_conv')

lemma setQueriesQueue_fields:
  "ticks (setQueriesQueue rr q e) = ticks e"
  "calls (setQueriesQueue rr q e) = calls e"
  "routes (setQueriesQueue rr q e) = routes e"
  "pendingAtCall (setQueriesQueue rr q e) = pendingAtCall e"
  by (simp_all add: setQueriesQueue_def)

lemma queriesQueue_ticks_update [simp]:
  "queriesQueue (e\<lparr>ticks := ts\<rparr>) rr = queriesQueue e rr"
  by (simp add: queriesQueue_def)

lemma length_update_le: "length (AList.update k v al) \<le> Suc (length al)"
  by (induction al) auto

lemmas scenario_defs =
  testOptions_def testAmbient_def testEnv_def getRoute_def
  searchConfig_def searchCache_def searchEnv_def
  serializedOptions_def serializedConfig_def serializedCache_def serializedEnv_def

lemmas construction_defs =
  useRouteQuery_def has_key_def lookup_def objectPrototypeNames_def Let_def
  identityTransform_def setQueriesQueue_def tryOnScopeDispose_def

lemma search_scenario:
  "useRouteQuery ''search'' (Plain (Scalar (Str ''default''))) testOptions (testAmbient None)
     (testEnv (getRoute [(''search'', Scalar (Str ''vue3''))]))
   = (Inr (searchConfig, searchCache), searchEnv)"
  by (simp add: construction_defs scenario_defs)

lemma serialized_scenario:
  "useRouteQuery ''serialized'' (Plain (Scalar Undefined)) serializedOptions (testAmbient None)
     (testEnv (getRoute [(''serialized'', Scalar (Str ''{}''))]))
   = (Inr (serializedConfig, serializedCache), serializedEnv)"
  by (simp add: construction_defs scenario_defs)

lemma toString_scenario:
  "useRouteQuery ''toString'' (Plain (Scalar (Str ''default''))) testOptions (testAmbient None)
     (testEnv (getRoute []))
   = (Inr (toStringConfig, toStringCache), abEnv)"
  by (simp add: construction_defs scenario_defs toStringConfig_def toStringCache_def abEnv_def)

lemma proto_scenario:
  "useRouteQuery ''__proto__'' (Plain (Scalar (Str ''''))) testOptions (testAmbient None) abEnv
   = (Inr (protoConfig Push, protoCache), abEnv)"
  by (simp add: construction_defs scenario_defs protoConfig_def protoCache_def aConfig_def
      abEnv_def)

lemma scoped_scenario:
  "useRouteQuery ''search'' (Plain (Scalar (Str ''default''))) testOptions scopedAmbient
     (testEnv (getRoute [(''search'', Scalar (Str ''vue3''))]))
   = (Inr (scopedConfig, searchCache), searchEnv)"
  by (simp add: construction_defs scenario_defs scopedAmbient_def scopedConfig_def)

section \<open>Writing\<close>

lemma proxy_set_throw:
  "transformToQuery cfg x = Inl ex \<Longrightarrow> proxy_set cfg x (c, e) = (Inl ex, c, e)"
  by (simp add: proxy_set_def)

lemma proxy_set_same:
  "transformToQuery cfg x = Inr raw \<Longrightarrow> areQueryValuesEqual raw (cachedRawValue c) \<Longrightarrow>
   proxy_set cfg x (c, e) = (Inr (), c, e)"
  by (simp add: proxy_set_def)

lemma proxy_set_changed:
  "transformToQuery cfg x = Inr raw \<Longrightarrow> \<not> areQueryValuesEqual raw (cachedRawValue c) \<Longrightarrow>
   proxy_set cfg x (c, e) =
     (Inr (),
      c\<lparr>cachedValue := x, cachedRawValue := raw, triggered := Suc (triggered c)\<rparr>,
      (setQueriesQueue (router cfg) (AList.update (name cfg) raw (queriesQueue e (router cfg))) e)
        \<lparr>ticks := ticks e @
           [\<lparr>tickRoute = route cfg, tickRouter = router cfg, tickMode = mode cfg\<rparr>]\<rparr>)"
  by (simp add: proxy_set_def)


text \<open>
  C1, as stated, fails in its second half: \<^verbatim>\<open>===\<close> does not find NaN equal to itself. In
  the first scenario, with the default transforms, \<^verbatim>\<open>search.value = NaN\<close> twice in a row
  passes the gate twice: two notifications and two scheduled callbacks.
\<close>

theorem set_twice_counterexample:
  "fst (proxy_set searchConfig (Scalar NaN) (searchCache, searchEnv)) = Inr ()
   \<and> triggered (fst (snd (proxy_set searchConfig (Scalar NaN)
        (snd (proxy_set searchConfig (Scalar NaN) (searchCache, searchEnv)))))) = 2
   \<and> length (ticks (snd (snd (proxy_set searchConfig (Scalar NaN)
        (snd (proxy_set searchConfig (Scalar NaN) (searchCache, searchEnv))))))) = 2"
  by (simp add: proxy_set_def scenario_defs identityTransform_def strictEquals_def
      setQueriesQueue_def queriesQueue_def)

text \<open>
  C1, amended. When the raw form of \<open>x\<close> equals the cached raw value, \<open>set x\<close> returns with
  the cache (and so the count of notifications), the pending writes, the scheduled
  callbacks and the router calls unchanged. When the raw form of \<open>x\<close> equals itself, that
  is, when NaN does not occur in it, a second \<open>set x\<close> right after a first one changes
  nothing more: the two calls together notify at most once, schedule at most one callback
  and add at most one pending write.
\<close>

theorem set_noop_gate:
  "(transformToQuery cfg x = Inr raw \<and> areQueryValuesEqual raw (cachedRawValue c)
      \<longrightarrow> proxy_set cfg x (c, e) = (Inr (), c, e))
   \<and> (proxy_set cfg x (c, e) = (res, c1, e1)
       \<and> (case transformToQuery cfg x of Inl ex \<Rightarrow> True
           | Inr r \<Rightarrow> areQueryValuesEqual r r)
      \<longrightarrow> proxy_set cfg x (c1, e1) = (res, c1, e1)
          \<and> triggered c1 \<le> Suc (triggered c)
          \<and> length (ticks e1) \<le> Suc (length (ticks e))
          \<and> length (queriesQueue e1 (router cfg)) \<le> Suc (length (queriesQueue e (router cfg))))
   \<and> areQueryValuesEqual v v
       = (case v of Scalar s \<Rightarrow> s \<noteq> NaN | Arr xs \<Rightarrow> Some NaN \<notin> set xs)"
proof (intro conjI impI)
  assume "transformToQuery cfg x = Inr raw \<and> areQueryValuesEqual raw (cachedRawValue c)"
  then show "proxy_set cfg x (c, e) = (Inr (), c, e)"
    by (simp add: proxy_set_same)
next
  assume both: "proxy_set cfg x (c, e) = (res, c1, e1)
       \<and> (case transformToQuery cfg x of Inl ex \<Rightarrow> True
           | Inr r \<Rightarrow> areQueryValuesEqual r r)"
  then have first: "proxy_set cfg x (c, e) = (res, c1, e1)" by simp
  show "proxy_set cfg x (c1, e1) = (res, c1, e1)"
  proof (cases "transformToQuery cfg x")
    case (Inl ex)
    with first show ?thesis by (simp add: proxy_set_throw)
  next
    case (Inr raw')
    with both have self: "areQueryValuesEqual raw' raw'" by simp
    show ?thesis
    proof (cases "areQueryValuesEqual raw' (cachedRawValue c)")
      case True
      with Inr first show ?thesis by (simp add: proxy_set_same)
    next
      case False
      with Inr first have "res = Inr ()" "cachedRawValue c1 = raw'"
        by (auto simp: proxy_set_changed)
      with Inr self show ?thesis
        by (simp add: proxy_set_same)
    qed
  qed
  from first show "triggered c1 \<le> Suc (triggered c)"
    by (auto simp: proxy_set_def split: sum.splits if_splits)
  from first show "length (ticks e1) \<le> Suc (length (ticks e))"
    by (auto simp: proxy_set_def setQueriesQueue_fields split: sum.splits if_splits)
  from first show "length (queriesQueue e1 (router cfg)) \<le> Suc (length (queriesQueue e (router cfg)))"
    by (auto simp: proxy_set_def queriesQueue_setQueriesQueue length_update_le
             split: sum.splits if_splits)
next
  show "areQueryValuesEqual v v
       = (case v of Scalar s \<Rightarrow> s \<noteq> NaN | Arr xs \<Rightarrow> Some NaN \<notin> set xs)"
    by (rule areQueryValuesEqual_refl)
qed

theorem set_noop_gate_witness:
  "transformToQuery searchConfig (Scalar (Str ''vue3'')) = Inr (Scalar (Str ''vue3''))
   \<and> areQueryValuesEqual (Scalar (Str ''vue3'')) (cachedRawValue searchCache)
   \<and> proxy_set searchConfig (Scalar (Str ''vue3'')) (searchCache, searchEnv)
       = (Inr (), searchCache, searchEnv)
   \<and> areQueryValuesEqual (Scalar (Str ''vue3'')) (Scalar (Str ''vue3'' :: obj scalar))
   \<and> proxy_set searchConfig (Scalar (Str ''vue3'')) (searchCache, searchEnv)
       = proxy_set searchConfig (Scalar (Str ''vue3''))
           (snd (proxy_set searchConfig (Scalar (Str ''vue3'')) (searchCache, searchEnv)))"
  using set_noop_gate [of searchConfig "Scalar (Str ''vue3'')" "Scalar (Str ''vue3'')"
      searchCache searchEnv "Inr ()" searchCache searchEnv "Scalar (Str ''vue3'')"]
  by (simp add: searchConfig_def searchCache_def identityTransform_def strictEquals_def)

section \<open>Reading after writing\<close>

text \<open>
  C2, as stated, fails in two ways. In the scenario "should handle transform get/set",
  writing a second object with the same JSON text as the cached one is stopped by the
  equality gate, and \<open>get\<close> keeps returning the object parsed from the query. In the
  scenario "should support setting to undefined or null", after writing \<^verbatim>\<open>undefined\<close> the
  cache holds \<^verbatim>\<open>undefined\<close> and \<open>get\<close> returns the default.
\<close>

theorem read_after_write_counterexample:
  "fst (proxy_set serializedConfig (Scalar (Other (2, ''{}''))) (serializedCache, serializedEnv))
     = Inr ()
   \<and> proxy_get serializedConfig ()
        (fst (snd (proxy_set serializedConfig (Scalar (Other (2, ''{}'')))
                     (serializedCache, serializedEnv))))
     \<noteq> Inr (Scalar (Other (2, ''{}'')))
   \<and> fst (proxy_set searchConfig (Scalar Undefined) (searchCache, searchEnv)) = Inr ()
   \<and> proxy_get searchConfig ()
        (fst (snd (proxy_set searchConfig (Scalar Undefined) (searchCache, searchEnv))))
     \<noteq> Inr (Scalar Undefined)"
  by (simp add: proxy_set_def proxy_get_def scenario_defs identityTransform_def)

text \<open>
  C2, amended. After \<open>set x\<close> has returned, nothing has been handed to the router yet, and
  \<open>get\<close> returns: what it returned before, when the raw form of \<open>x\<close> equals the cached raw
  value (the write is a no-op); the default, when the write went through and \<open>x\<close> is
  \<^verbatim>\<open>undefined\<close>; and \<open>x\<close> itself, not a retransformed value, in every other case.
\<close>

theorem read_after_write:
  "proxy_set cfg x (c, e) = (Inr (), c', e') \<and> transformToQuery cfg x = Inr raw \<longrightarrow>
     calls e' = calls e
     \<and> proxy_get cfg w c' =
         (if areQueryValuesEqual raw (cachedRawValue c) then proxy_get cfg w c
          else if x = Scalar Undefined then toValue w (defaultValue cfg)
          else Inr x)"
proof (intro impI, elim conjE)
  assume ret: "proxy_set cfg x (c, e) = (Inr (), c', e')"
    and raw: "transformToQuery cfg x = Inr raw"
  show "calls e' = calls e
     \<and> proxy_get cfg w c' =
         (if areQueryValuesEqual raw (cachedRawValue c) then proxy_get cfg w c
          else if x = Scalar Undefined then toValue w (defaultValue cfg)
          else Inr x)"
  proof (cases "areQueryValuesEqual raw (cachedRawValue c)")
    case True
    with raw ret have "c' = c" "e' = e"
      by (simp_all add: proxy_set_same)
    with True show ?thesis by simp
  next
    case False
    with raw ret have "cachedValue c' = x" "calls e' = calls e"
      by (auto simp: proxy_set_changed setQueriesQueue_fields)
    with False show ?thesis by (simp add: proxy_get_def)
  qed
qed

theorem read_after_write_witness:
  "proxy_set searchConfig (Scalar Null) (searchCache, searchEnv)
     = (Inr (),
        searchCache\<lparr>cachedValue := Scalar Null, cachedRawValue := Scalar Null,
          triggered := 1\<rparr>,
        searchEnv\<lparr>queue := [(0, [(''search'', Scalar Null)])],
          ticks := [\<lparr>tickRoute = 0, tickRouter = 0, tickMode = Push\<rparr>]\<rparr>)
   \<and> transformToQuery searchConfig (Scalar Null) = Inr (Scalar Null)
   \<and> calls (searchEnv\<lparr>queue := [(0, [(''search'', Scalar Null)])],
          ticks := [\<lparr>tickRoute = 0, tickRouter = 0, tickMode = Push\<rparr>]\<rparr>) = []
   \<and> proxy_get searchConfig ()
        (searchCache\<lparr>cachedValue := Scalar Null, cachedRawValue := Scalar Null,
          triggered := 1\<rparr>) = Inr (Scalar Null)"
  using read_after_write [of searchConfig "Scalar Null" searchCache searchEnv
      "searchCache\<lparr>cachedValue := Scalar Null, cachedRawValue := Scalar Null, triggered := 1\<rparr>"
      "searchEnv\<lparr>queue := [(0, [(''search'', Scalar Null)])],
          ticks := [\<lparr>tickRoute = 0, tickRouter = 0, tickMode = Push\<rparr>]\<rparr>"
      "Scalar Null" "()"]
  by (simp add: proxy_set_def scenario_defs identityTransform_def setQueriesQueue_def
      queriesQueue_def)

section \<open>External changes\<close>

lemma watchCallback_same:
  "areQueryValuesEqual v (cachedRawValue c) \<Longrightarrow> watchCallback cfg v (c, e) = (Inr (), c, e)"
  by (simp add: watchCallback_def)

lemma watchCallback_undefined:
  "\<not> areQueryValuesEqual (Scalar Undefined) (cachedRawValue c) \<Longrightarrow>
   watchCallback cfg (Scalar Undefined) (c, e) =
     (Inr (), c\<lparr>cachedRawValue := Scalar Undefined, cachedValue := Scalar Undefined,
                 triggered := Suc (triggered c)\<rparr>, e)"
  by (simp add: watchCallback_def)

lemma watchCallback_present:
  "\<not> areQueryValuesEqual v (cachedRawValue c) \<Longrightarrow> v \<noteq> Scalar Undefined \<Longrightarrow>
   transformFromQuery cfg v = Inr t \<Longrightarrow>
   watchCallback cfg v (c, e) =
     (Inr (), c\<lparr>cachedRawValue := v, cachedValue := t, triggered := Suc (triggered c)\<rparr>, e)"
  by (simp add: watchCallback_def)

lemma watchCallback_throw:
  "\<not> areQueryValuesEqual v (cachedRawValue c) \<Longrightarrow> v \<noteq> Scalar Undefined \<Longrightarrow>
   transformFromQuery cfg v = Inl ex \<Longrightarrow>
   watchCallback cfg v (c, e) = (Inl ex, c\<lparr>cachedRawValue := v\<rparr>, e)"
  by (simp add: watchCallback_def)

lemma watchCallback_env: "snd (snd (watchCallback cfg v (c, e))) = e"
  by (simp add: watchCallback_def Let_def split: sum.splits)

lemma externalChange_env: "snd (snd (externalChange cfg v (c, e))) = e"
  by (simp add: externalChange_def watchCallback_env)

text \<open>
  C5. Whatever value the watcher delivers, the callback returns the shared state as it
  found it: no pending write is added, no callback is scheduled and the router is not
  called, also when the transform throws. When the value equals the cached raw value
  nothing changes at all; otherwise the cached raw value becomes the delivered value and,
  when the callback returns, the cached typed value is the transformed value (or
  \<^verbatim>\<open>undefined\<close> for \<^verbatim>\<open>undefined\<close>) and the observers have been notified once. When the
  transform throws, only the cached raw value has changed.
\<close>

theorem watch_never_enqueues:
  "watchCallback cfg v (c, e) = (res, c', e') \<longrightarrow>
     e' = e
     \<and> snd (snd (externalChange cfg v (c, e))) = e
     \<and> (if areQueryValuesEqual v (cachedRawValue c) then res = Inr () \<and> c' = c
        else cachedRawValue c' = v
           \<and> (case res of
                Inr u \<Rightarrow>
                  triggered c' = Suc (triggered c)
                  \<and> (if v \<noteq> Scalar Undefined then transformFromQuery cfg v = Inr (cachedValue c')
                     else cachedValue c' = Scalar Undefined)
              | Inl ex \<Rightarrow>
                  transformFromQuery cfg v = Inl ex \<and> c' = c\<lparr>cachedRawValue := v\<rparr>))"
proof
  assume run: "watchCallback cfg v (c, e) = (res, c', e')"
  have env: "e' = e"
    using watchCallback_env [of cfg v c e] run by simp
  have cache: "if areQueryValuesEqual v (cachedRawValue c) then res = Inr () \<and> c' = c
        else cachedRawValue c' = v
           \<and> (case res of
                Inr u \<Rightarrow>
                  triggered c' = Suc (triggered c)
                  \<and> (if v \<noteq> Scalar Undefined then transformFromQuery cfg v = Inr (cachedValue c')
                     else cachedValue c' = Scalar Undefined)
              | Inl ex \<Rightarrow>
                  transformFromQuery cfg v = Inl ex \<and> c' = c\<lparr>cachedRawValue := v\<rparr>)"
  proof (cases "areQueryValuesEqual v (cachedRawValue c)")
    case True
    with run show ?thesis by (simp add: watchCallback_same)
  next
    case differs: False
    show ?thesis
    proof (cases "v = Scalar Undefined")
      case True
      with differs run show ?thesis by (auto simp: watchCallback_undefined)
    next
      case present: False
      show ?thesis
      proof (cases "transformFromQuery cfg v")
        case (Inl ex)
        with differs present run show ?thesis by (auto simp: watchCallback_throw)
      next
        case (Inr t)
        with differs present run show ?thesis by (auto simp: watchCallback_present)
      qed
    qed
  qed
  from env cache externalChange_env [of cfg v c e]
  show "e' = e
     \<and> snd (snd (externalChange cfg v (c, e))) = e
     \<and> (if areQueryValuesEqual v (cachedRawValue c) then res = Inr () \<and> c' = c
        else cachedRawValue c' = v
           \<and> (case res of
                Inr u \<Rightarrow>
                  triggered c' = Suc (triggered c)
                  \<and> (if v \<noteq> Scalar Undefined then transformFromQuery cfg v = Inr (cachedValue c')
                     else cachedValue c' = Scalar Undefined)
              | Inl ex \<Rightarrow>
                  transformFromQuery cfg v = Inl ex \<and> c' = c\<lparr>cachedRawValue := v\<rparr>))"
    by simp
qed

theorem watch_never_enqueues_witness:
  "watchCallback searchConfig (Scalar (Str ''vue4'')) (searchCache, searchEnv)
     = (Inr (),
        searchCache\<lparr>cachedRawValue := Scalar (Str ''vue4''), cachedValue := Scalar (Str ''vue4''),
          triggered := 1\<rparr>,
        searchEnv)
   \<and> queue searchEnv = [(0, [])] \<and> ticks searchEnv = [] \<and> calls searchEnv = []"
  using watch_never_enqueues [of searchConfig "Scalar (Str ''vue4'')" searchCache searchEnv
      "Inr ()"
      "searchCache\<lparr>cachedRawValue := Scalar (Str ''vue4''), cachedValue := Scalar (Str ''vue4''),
          triggered := 1\<rparr>"
      searchEnv]
  by (simp add: watchCallback_def scenario_defs identityTransform_def)

section \<open>Construction\<close>

lemma useRouteQuery_config:
  assumes "useRouteQuery nm dv options amb e0 = (Inr (cfg, c0), e1)"
  shows "name cfg = nm" and "defaultValue cfg = dv"
    and "scope cfg = getCurrentScope amb" and "enclosingScopes cfg = parentScopes amb"
    and "disposeRegistered cfg = tryOnScopeDispose (getCurrentScope amb)"
    and "route cfg = (case opt_route options of None \<Rightarrow> useRoute amb | Some r \<Rightarrow> r)"
  using assms
  by (auto simp: useRouteQuery_def Let_def split: if_splits sum.splits)

lemma useRouteQuery_env:
  assumes "useRouteQuery nm dv options amb e0 = (res, e1)"
  shows "routes e1 = routes e0" and "ticks e1 = ticks e0" and "calls e1 = calls e0"
  using assms
  by (auto simp: useRouteQuery_def Let_def setQueriesQueue_fields split: if_splits sum.splits)

lemma useRouteQuery_absent:
  assumes "useRouteQuery nm dv options amb e0 = (Inr (cfg, c0), e1)"
    and "\<not> has_key (query (routes e0 (route cfg))) nm"
  shows "c0 = \<lparr>cachedValue = Scalar Undefined, cachedRawValue = Scalar Undefined,
               triggered = 0, watcherActive = True\<rparr>"
proof -
  have rt: "route cfg = (case opt_route options of None \<Rightarrow> useRoute amb | Some r \<Rightarrow> r)"
    using assms(1) by (rule useRouteQuery_config)
  show ?thesis
    using assms rt
    by (auto simp: useRouteQuery_def Let_def setQueriesQueue_fields split: if_splits sum.splits)
qed

section \<open>Disposal\<close>





section \<open>The unset cache\<close>

text \<open>
  C9, as stated, fails: the unset state of the cache is the value \<^verbatim>\<open>undefined\<close> itself. In
  the scenario "should support setting to undefined or null", writing the typed value
  \<^verbatim>\<open>undefined\<close> leaves the cache in the state that disposal produces, and \<open>get\<close>
  returns the default.
\<close>

theorem unset_sentinel_counterexample:
  "fst (proxy_set searchConfig (Scalar Undefined) (searchCache, searchEnv)) = Inr ()
   \<and> cachedValue (fst (snd (proxy_set searchConfig (Scalar Undefined) (searchCache, searchEnv))))
      = cachedValue (disposeCallback searchCache)
   \<and> proxy_get searchConfig ()
        (fst (snd (proxy_set searchConfig (Scalar Undefined) (searchCache, searchEnv))))
      = Inr (Scalar (Str ''default''))"
  by (simp add: proxy_set_def proxy_get_def scenario_defs identityTransform_def
      disposeCallback_def)

text \<open>
  C9, amended. The unset state of the cache (after construction on an absent field, and
  after disposal) is the value \<^verbatim>\<open>undefined\<close>. It differs from every other typed value,
  \<^verbatim>\<open>null\<close> included: \<open>get\<close> returns such a cached value as it is. A cached typed value
  \<^verbatim>\<open>undefined\<close> is the unset state, and \<open>get\<close> returns the default.
\<close>

theorem unset_sentinel:
  "(useRouteQuery nm dv options amb e0 = (Inr (cfg, c0), e1)
      \<and> \<not> has_key (query (routes e0 (route cfg))) nm \<longrightarrow> cachedValue c0 = Scalar Undefined)
   \<and> cachedValue (disposeCallback c) = Scalar Undefined
   \<and> (x \<noteq> Scalar Undefined \<longrightarrow> proxy_get cfg w (c\<lparr>cachedValue := x\<rparr>) = Inr x)
   \<and> proxy_get cfg w (c\<lparr>cachedValue := Scalar Null\<rparr>) = Inr (Scalar Null)
   \<and> proxy_get cfg w (c\<lparr>cachedValue := Scalar Undefined\<rparr>) = toValue w (defaultValue cfg)"
  using useRouteQuery_absent [of nm dv options amb e0 cfg c0 e1]
  by (auto simp: proxy_get_def disposeCallback_def)

theorem unset_sentinel_witness:
  "useRouteQuery ''search'' (Plain (Scalar (Str ''default''))) testOptions (testAmbient None)
     (testEnv (getRoute []))
   = (Inr (searchConfig,
           \<lparr>cachedValue = Scalar Undefined, cachedRawValue = Scalar Undefined,
              triggered = 0, watcherActive = True\<rparr>),
      (testEnv (getRoute []))\<lparr>queue := [(0, [])]\<rparr>)
   \<and> \<not> has_key (query (routes (testEnv (getRoute [])) (route searchConfig))) ''search''
   \<and> Scalar (Str ''vue3'') \<noteq> (Scalar Undefined :: obj jsval)
   \<and> proxy_get searchConfig () (searchCache\<lparr>cachedValue := Scalar (Str ''vue3'')\<rparr>)
       = Inr (Scalar (Str ''vue3''))"
  using unset_sentinel [of "''search''" "Plain (Scalar (Str ''default''))" testOptions
      "testAmbient None" "testEnv (getRoute [])" searchConfig
      "\<lparr>cachedValue = Scalar Undefined, cachedRawValue = Scalar Undefined,
              triggered = 0, watcherActive = True\<rparr>"
      "(testEnv (getRoute []))\<lparr>queue := [(0, [])]\<rparr>" searchCache
      "Scalar (Str ''vue3'')" "()"]
  by (simp add: construction_defs scenario_defs)

section \<open>Writing \<^verbatim>\<open>undefined\<close> to an absent field\<close>

text \<open>
  For a name that \<^verbatim>\<open>name in route.query\<close> does not find at construction, a write whose
  raw form is \<^verbatim>\<open>undefined\<close> changes nothing, and \<open>get\<close> returns the default.
\<close>

lemma undefined_write_noop:
  "useRouteQuery nm dv options amb e0 = (Inr (cfg, c), e)
   \<and> \<not> has_key (query (routes e0 (route cfg))) nm
   \<and> transformToQuery cfg x = Inr (Scalar Undefined)
   \<longrightarrow> proxy_set cfg x (c, e) = (Inr (), c, e)
     \<and> ticks e = ticks e0 \<and> calls e = calls e0
     \<and> proxy_get cfg w c = toValue w dv"
proof (intro impI, elim conjE)
  assume made: "useRouteQuery nm dv options amb e0 = (Inr (cfg, c), e)"
    and absent: "\<not> has_key (query (routes e0 (route cfg))) nm"
    and raw: "transformToQuery cfg x = Inr (Scalar Undefined)"
  from made absent
  have c: "c = \<lparr>cachedValue = Scalar Undefined, cachedRawValue = Scalar Undefined,
               triggered = 0, watcherActive = True\<rparr>"
    by (rule useRouteQuery_absent)
  then have "areQueryValuesEqual (Scalar Undefined) (cachedRawValue c)"
    by simp
  with raw have noop: "proxy_set cfg x (c, e) = (Inr (), c, e)"
    by (rule proxy_set_same)
  from made have dv: "defaultValue cfg = dv"
    by (rule useRouteQuery_config)
  from made have env: "ticks e = ticks e0" "calls e = calls e0"
    by (rule useRouteQuery_env)+
  from c dv have "proxy_get cfg w c = toValue w dv"
    by (simp add: proxy_get_def)
  with noop env show "proxy_set cfg x (c, e) = (Inr (), c, e)
     \<and> ticks e = ticks e0 \<and> calls e = calls e0
     \<and> proxy_get cfg w c = toValue w dv"
    by simp
qed

text \<open>
  C10. The claim fails for a name that the query does not hold and a plain object
  inherits. \<^verbatim>\<open>useRouteQuery("toString", "default", { route, router })\<close> on the empty route:
  the query has no field \<^verbatim>\<open>toString\<close>, yet \<^verbatim>\<open>"toString" in route.query\<close> is true, and the
  cache is seeded with the inherited function. \<open>get\<close> returns that function, not the
  default; \<^verbatim>\<open>set(undefined)\<close> is no no-op: it empties the cache, notifies, enqueues and
  schedules a callback, and the next tick calls the router.
\<close>

theorem absent_inherited_name:
  "map_of (query (getRoute [])) ''toString'' = None
   \<and> useRouteQuery ''toString'' (Plain (Scalar (Str ''default''))) testOptions (testAmbient None)
       (testEnv (getRoute []))
     = (Inr (toStringConfig, toStringCache), abEnv)
   \<and> cachedRawValue toStringCache = Scalar (Inherited ''toString'')
   \<and> proxy_get toStringConfig () toStringCache = Inr (Scalar (Inherited ''toString''))
   \<and> proxy_set toStringConfig (Scalar Undefined) (toStringCache, abEnv)
     = (Inr (),
        toStringCache\<lparr>cachedValue := Scalar Undefined, cachedRawValue := Scalar Undefined,
          triggered := 1\<rparr>,
        abEnv\<lparr>queue := [(0, [(''toString'', Scalar Undefined)])],
          ticks := [\<lparr>tickRoute = 0, tickRouter = 0, tickMode = Push\<rparr>]\<rparr>)
   \<and> calls (flushTicks (snd (snd
        (proxy_set toStringConfig (Scalar Undefined) (toStringCache, abEnv)))))
     = [(0, Push,
         \<lparr>params = [], query = [(''toString'', Scalar Undefined)], hash = ''''\<rparr>)]"
  by (simp add: construction_defs scenario_defs toStringConfig_def toStringCache_def abEnv_def
      proxy_get_def proxy_set_def queriesQueue_def flushTicks_def flushCallback_def
      routerCall_def assignProperty_def)

section \<open>Flushing\<close>

text \<open>
  The assignments of the pending pairs to the copy of the query: under every name but
  \<^verbatim>\<open>__proto__\<close> the copy ends with the pending value, or with the value of the query where
  nothing is pending; it gets no property \<^verbatim>\<open>__proto__\<close> that the query did not hold.
\<close>

lemma map_of_assignProperty:
  "k \<noteq> ''__proto__'' \<Longrightarrow>
   map_of (assignProperty k' v q) k = (if k' = k then Some v else map_of q k)"
  by (simp add: assignProperty_def update_conv')

lemma map_of_fold_assign:
  "distinct (map fst ps) \<Longrightarrow> k \<noteq> ''__proto__'' \<Longrightarrow>
   map_of (fold (\<lambda>(key, val) q. assignProperty key val q) ps q) k
     = (map_of q ++ map_of ps) k"
proof (induction ps arbitrary: q)
  case Nil
  then show ?case by simp
next
  case (Cons p ps)
  obtain k' v where p: "p = (k', v)" by (cases p)
  from Cons.prems p have fresh: "map_of ps k' = None" and dist: "distinct (map fst ps)"
    by (auto simp: map_of_eq_None_iff)
  have "map_of (fold (\<lambda>(key, val) q. assignProperty key val q) (p # ps) q) k
        = (map_of (assignProperty k' v q) ++ map_of ps) k"
    using Cons.IH [OF dist Cons.prems(2)] p by simp
  also have "\<dots> = (map_of q ++ map_of (p # ps)) k"
    using fresh p Cons.prems(2)
    by (auto simp: map_of_assignProperty map_add_def split: option.splits)
  finally show ?case .
qed

lemma fold_assign_proto:
  "''__proto__'' \<notin> set (map fst q) \<Longrightarrow>
   ''__proto__'' \<notin> set (map fst (fold (\<lambda>(key, val) q. assignProperty key val q) ps q))"
proof (induction ps arbitrary: q)
  case Nil
  then show ?case by simp
next
  case (Cons p ps)
  obtain k' v where p: "p = (k', v)" by (cases p)
  from Cons.prems have "''__proto__'' \<notin> set (map fst (assignProperty k' v q))"
    by (auto simp: assignProperty_def dom_update)
  from Cons.IH [OF this] p show ?case by simp
qed

lemma update_not_Nil: "AList.update k v al \<noteq> []"
  by (cases al) auto

lemma queriesQueue_routerCall [simp]:
  "queriesQueue (routerCall rr m loc e) r' = queriesQueue e r'"
  by (simp add: queriesQueue_def routerCall_def)

lemma queriesQueue_routes_update [simp]:
  "queriesQueue (e\<lparr>routes := R\<rparr>) rr = queriesQueue e rr"
  by (simp add: queriesQueue_def)

lemma flushCallback_empty:
  "queriesQueue e (tickRouter t) = [] \<Longrightarrow> flushCallback t e = e"
  by (simp add: flushCallback_def)

lemma flushCallback_pending:
  "queriesQueue e (tickRouter t) \<noteq> [] \<Longrightarrow>
   flushCallback t e =
     routerCall (tickRouter t) (tickMode t)
       \<lparr>params = params (routes e (tickRoute t)),
        query = fold (\<lambda>(key, val) q. assignProperty key val q)
                  (queriesQueue e (tickRouter t)) (query (routes e (tickRoute t))),
        hash = hash (routes e (tickRoute t))\<rparr>
       (setQueriesQueue (tickRouter t) [] e)"
  by (simp add: flushCallback_def Let_def)

lemma commitsTo_routerCall:
  "commitsTo rr (routerCall r' m loc e) = (if r' = rr then Suc (commitsTo rr e) else commitsTo rr e)"
  by (simp add: commitsTo_def routerCall_def)

lemma commitsTo_setQueriesQueue [simp]:
  "commitsTo rr (setQueriesQueue r' q e) = commitsTo rr e"
  by (simp add: commitsTo_def setQueriesQueue_def)

lemma runTicks_commits:
  "commitsTo rr (runTicks ts e) =
     commitsTo rr e + (if queriesQueue e rr \<noteq> [] \<and> rr \<in> tickRouter ` set ts then 1 else 0)"
proof (induction ts arbitrary: e)
  case Nil
  then show ?case by simp
next
  case (Cons t ts)
  show ?case
  proof (cases "queriesQueue e (tickRouter t) = []")
    case True
    then have "runTicks (t # ts) e = runTicks ts e"
      by (simp add: flushCallback_empty)
    with True Cons.IH [of e] show ?thesis by auto
  next
    case False
    let ?e' = "flushCallback t e"
    have q: "queriesQueue ?e' rr = (if tickRouter t = rr then [] else queriesQueue e rr)"
      using False by (simp add: flushCallback_pending queriesQueue_setQueriesQueue)
    have n: "commitsTo rr ?e' = (if tickRouter t = rr then Suc (commitsTo rr e) else commitsTo rr e)"
      using False by (simp add: flushCallback_pending commitsTo_routerCall)
    have "commitsTo rr (runTicks (t # ts) e) = commitsTo rr (runTicks ts ?e')"
      by simp
    also have "\<dots> = commitsTo rr ?e'
        + (if queriesQueue ?e' rr \<noteq> [] \<and> rr \<in> tickRouter ` set ts then 1 else 0)"
      by (rule Cons.IH)
    finally show ?thesis
      using q n False by auto
  qed
qed

text \<open>
  The pending set of a router is a \<^verbatim>\<open>Map\<close>: it is created empty and no operation gives it
  a key twice.
\<close>

lemma useRouteQuery_pending_distinct:
  assumes "useRouteQuery nm dv options amb e0 = (res, e1)"
    and "distinct (map fst (queriesQueue e0 rr))"
  shows "distinct (map fst (queriesQueue e1 rr))"
  using assms
  by (auto simp: useRouteQuery_def Let_def queriesQueue_setQueriesQueue
           split: if_splits sum.splits)

lemma proxy_set_pending_distinct:
  assumes "proxy_set cfg x (c, e) = (res, c', e')"
    and "distinct (map fst (queriesQueue e rr))"
  shows "distinct (map fst (queriesQueue e' rr))"
  using assms
  by (auto simp: proxy_set_def queriesQueue_setQueriesQueue distinct_update
           split: if_splits sum.splits)

lemma flushCallback_pending_distinct:
  assumes "distinct (map fst (queriesQueue e rr))"
  shows "distinct (map fst (queriesQueue (flushCallback t e) rr))"
  using assms
  by (simp add: flushCallback_def Let_def queriesQueue_setQueriesQueue)

lemma two_writes:
  assumes shared: "router cfgB = router cfgA"
    and idle: "ticks e = []"
    and wa: "transformToQuery cfgA x = Inr ra" "\<not> areQueryValuesEqual ra (cachedRawValue ca)"
    and wb: "transformToQuery cfgB y = Inr rb" "\<not> areQueryValuesEqual rb (cachedRawValue cb)"
    and sa: "proxy_set cfgA x (ca, e) = (resA, ca', e1)"
    and sb: "proxy_set cfgB y (cb, e1) = (resB, cb', e2)"
  shows "queriesQueue e2 (router cfgA) =
           AList.update (name cfgB) rb
             (AList.update (name cfgA) ra (queriesQueue e (router cfgA)))"
    and "ticks e2 =
           [\<lparr>tickRoute = route cfgA, tickRouter = router cfgA, tickMode = mode cfgA\<rparr>,
            \<lparr>tickRoute = route cfgB, tickRouter = router cfgA, tickMode = mode cfgB\<rparr>]"
    and "calls e2 = calls e" and "routes e2 = routes e"
    and "flushTicks (e2\<lparr>routes := R\<rparr>) =
           routerCall (router cfgA) (mode cfgA)
             \<lparr>params = params (R (route cfgA)),
              query = fold (\<lambda>(key, val) q. assignProperty key val q)
                        (queriesQueue e2 (router cfgA)) (query (R (route cfgA))),
              hash = hash (R (route cfgA))\<rparr>
             (setQueriesQueue (router cfgA) [] (e2\<lparr>routes := R, ticks := []\<rparr>))"
    and "pendingAtCall e2 = pendingAtCall e"
proof -
  let ?tA = "\<lparr>tickRoute = route cfgA, tickRouter = router cfgA, tickMode = mode cfgA\<rparr>"
  let ?tB = "\<lparr>tickRoute = route cfgB, tickRouter = router cfgA, tickMode = mode cfgB\<rparr>"
  let ?r = "router cfgA"
  from sa wa have e1: "e1 =
      (setQueriesQueue ?r (AList.update (name cfgA) ra (queriesQueue e ?r)) e)
        \<lparr>ticks := ticks e @ [?tA]\<rparr>"
    by (simp add: proxy_set_changed)
  from sb wb shared have e2: "e2 =
      (setQueriesQueue ?r (AList.update (name cfgB) rb (queriesQueue e1 ?r)) e1)
        \<lparr>ticks := ticks e1 @ [?tB]\<rparr>"
    by (simp add: proxy_set_changed)
  have q1: "queriesQueue e1 ?r = AList.update (name cfgA) ra (queriesQueue e ?r)"
    by (simp add: e1 queriesQueue_setQueriesQueue)
  show q2: "queriesQueue e2 ?r =
      AList.update (name cfgB) rb (AList.update (name cfgA) ra (queriesQueue e ?r))"
    by (simp add: e2 q1 queriesQueue_setQueriesQueue)
  show t2: "ticks e2 = [?tA, ?tB]"
    by (simp add: e2 e1 idle setQueriesQueue_fields)
  show "calls e2 = calls e"
    by (simp add: e2 e1 setQueriesQueue_fields)
  show "routes e2 = routes e"
    by (simp add: e2 e1 setQueriesQueue_fields)
  show "pendingAtCall e2 = pendingAtCall e"
    by (simp add: e2 e1 setQueriesQueue_fields)
  let ?s = "e2\<lparr>routes := R, ticks := []\<rparr>"
  have pending: "queriesQueue ?s (tickRouter ?tA) \<noteq> []"
    by (simp add: q2 update_not_Nil)
  have first: "flushCallback ?tA ?s =
      routerCall ?r (mode cfgA)
        \<lparr>params = params (R (route cfgA)),
         query = fold (\<lambda>(key, val) q. assignProperty key val q)
                   (queriesQueue e2 ?r) (query (R (route cfgA))),
         hash = hash (R (route cfgA))\<rparr>
        (setQueriesQueue ?r [] ?s)"
    using flushCallback_pending [OF pending] by simp
  have "queriesQueue (flushCallback ?tA ?s) (tickRouter ?tB) = []"
    by (simp add: first queriesQueue_setQueriesQueue)
  then have second: "flushCallback ?tB (flushCallback ?tA ?s) = flushCallback ?tA ?s"
    by (rule flushCallback_empty)
  have "flushTicks (e2\<lparr>routes := R\<rparr>) = runTicks [?tA, ?tB] ?s"
    by (simp add: flushTicks_def t2)
  also have "\<dots> = flushCallback ?tA ?s"
    using second by simp
  finally show "flushTicks (e2\<lparr>routes := R\<rparr>) =
           routerCall ?r (mode cfgA)
             \<lparr>params = params (R (route cfgA)),
              query = fold (\<lambda>(key, val) q. assignProperty key val q)
                        (queriesQueue e2 ?r) (query (R (route cfgA))),
              hash = hash (R (route cfgA))\<rparr>
             (setQueriesQueue ?r [] (e2\<lparr>routes := R, ticks := []\<rparr>))"
    using first by simp
qed

lemma pending_two_writes:
  "map_of (AList.update kb rb (AList.update ka ra q)) kb = Some rb"
  "ka \<noteq> kb \<Longrightarrow> map_of (AList.update kb rb (AList.update ka ra q)) ka = Some ra"
  "distinct (map fst q) \<Longrightarrow> distinct (map fst (AList.update kb rb (AList.update ka ra q)))"
  by (simp_all add: update_conv' distinct_update)

lemmas write_defs =
  unsetCache_def aConfig_def bConfig_def abEnv_def afterA_def writeBoth_def
  testEnv_def getRoute_def identityTransform_def
  proxy_set_def setQueriesQueue_def queriesQueue_def

lemmas flush_defs =
  flushTicks_def flushCallback_def routerCall_def assignProperty_def Let_def

section \<open>Coalescing\<close>

text \<open>
  Two synchronizers share a router; no callback is pending (and the pending set, a
  \<^verbatim>\<open>Map\<close>, has no key twice); each writes a changed value. At the next tick the router is
  called exactly once, and it finds the pending set already empty. The committed query is
  the query of the route as it is when the tick runs, with the pending pairs laid over it
  under every name but \<^verbatim>\<open>__proto__\<close>: the pending set holds the raw value written second
  under its name and, when the names differ, the raw value written first under its name,
  and every key outside the pending set keeps the route's value; \<open>params\<close> and \<open>hash\<close>
  are the route's. The route read is the one of the synchronizer that wrote first, which
  is the store's query when both use the same route object.
\<close>

lemma two_writes_commit:
  assumes shared: "router cfgB = router cfgA" and idle: "ticks e = []"
    and dist: "distinct (map fst (queriesQueue e (router cfgA)))"
    and wa: "transformToQuery cfgA x = Inr ra" "\<not> areQueryValuesEqual ra (cachedRawValue ca)"
    and wb: "transformToQuery cfgB y = Inr rb" "\<not> areQueryValuesEqual rb (cachedRawValue cb)"
    and sa: "proxy_set cfgA x (ca, e) = (resA, ca', e1)"
    and sb: "proxy_set cfgB y (cb, e1) = (resB, cb', e2)"
  shows "\<exists>loc. calls (flushTicks (e2\<lparr>routes := R\<rparr>)) = calls e @ [(router cfgA, mode cfgA, loc)]
        \<and> pendingAtCall (flushTicks (e2\<lparr>routes := R\<rparr>)) = pendingAtCall e @ [[]]
        \<and> queriesQueue (flushTicks (e2\<lparr>routes := R\<rparr>)) (router cfgA) = []
        \<and> ticks (flushTicks (e2\<lparr>routes := R\<rparr>)) = []
        \<and> params loc = params (R (route cfgA)) \<and> hash loc = hash (R (route cfgA))
        \<and> (\<forall>k. k \<noteq> ''__proto__'' \<longrightarrow>
              map_of (query loc) k
                = (map_of (query (R (route cfgA))) ++ map_of (queriesQueue e2 (router cfgA))) k)
        \<and> map_of (queriesQueue e2 (router cfgA)) (name cfgB) = Some rb
        \<and> (name cfgA \<noteq> name cfgB
             \<longrightarrow> map_of (queriesQueue e2 (router cfgA)) (name cfgA) = Some ra)"
proof -
  note tw = two_writes [OF shared idle wa wb sa sb]
  let ?r = "router cfgA"
  let ?loc = "\<lparr>params = params (R (route cfgA)),
              query = fold (\<lambda>(key, val) q. assignProperty key val q)
                        (queriesQueue e2 ?r) (query (R (route cfgA))),
              hash = hash (R (route cfgA))\<rparr>"
  let ?mid = "setQueriesQueue ?r [] (e2\<lparr>routes := R, ticks := []\<rparr>)"
  let ?end = "flushTicks (e2\<lparr>routes := R\<rparr>)"
  have run: "?end = routerCall ?r (mode cfgA) ?loc ?mid"
    by (rule tw(5))
  have mid: "calls ?mid = calls e" "queriesQueue ?mid ?r = []" "ticks ?mid = []"
      "pendingAtCall ?mid = pendingAtCall e"
    by (simp_all add: setQueriesQueue_fields queriesQueue_setQueriesQueue tw(3) tw(6))
  have log: "calls ?end = calls e @ [(?r, mode cfgA, ?loc)]"
    by (simp add: run routerCall_def mid(1))
  have seen: "pendingAtCall ?end = pendingAtCall e @ [[]]"
    by (simp add: run routerCall_def mid(2) mid(4))
  have after: "queriesQueue ?end ?r = []" "ticks ?end = []"
  proof -
    show "queriesQueue ?end ?r = []"
      by (simp add: run mid(2))
    show "ticks ?end = []"
      by (simp add: run routerCall_def mid(3))
  qed
  have pend_dist: "distinct (map fst (queriesQueue e2 ?r))"
    using dist by (simp add: tw(1) pending_two_writes)
  have merged: "\<forall>k. k \<noteq> ''__proto__'' \<longrightarrow>
      map_of (query ?loc) k
        = (map_of (query (R (route cfgA))) ++ map_of (queriesQueue e2 ?r)) k"
    using map_of_fold_assign [OF pend_dist] by simp
  have b: "map_of (queriesQueue e2 ?r) (name cfgB) = Some rb"
    by (simp add: tw(1) pending_two_writes)
  have a: "name cfgA \<noteq> name cfgB \<longrightarrow> map_of (queriesQueue e2 ?r) (name cfgA) = Some ra"
    by (simp add: tw(1) pending_two_writes)
  have "calls ?end = calls e @ [(?r, mode cfgA, ?loc)]
        \<and> pendingAtCall ?end = pendingAtCall e @ [[]]
        \<and> queriesQueue ?end ?r = [] \<and> ticks ?end = []
        \<and> params ?loc = params (R (route cfgA)) \<and> hash ?loc = hash (R (route cfgA))
        \<and> (\<forall>k. k \<noteq> ''__proto__'' \<longrightarrow>
              map_of (query ?loc) k
                = (map_of (query (R (route cfgA))) ++ map_of (queriesQueue e2 ?r)) k)
        \<and> map_of (queriesQueue e2 ?r) (name cfgB) = Some rb
        \<and> (name cfgA \<noteq> name cfgB \<longrightarrow> map_of (queriesQueue e2 ?r) (name cfgA) = Some ra)"
    using log seen after merged a b by simp
  then show ?thesis by blast
qed

text \<open>
  C3. The claim fails for a synchronizer named \<^verbatim>\<open>__proto__\<close>. With \<open>a\<close> and such a
  synchronizer on one route and router, \<^verbatim>\<open>a.value = "1"; p.value = "2"\<close> schedules two
  callbacks and leaves two pending pairs; the next tick calls the router once, with the
  pending set emptied before the call; but \<^verbatim>\<open>newQueries["__proto__"] = "2"\<close> runs the
  setter that a plain object inherits and gives it no property, so the committed query
  holds \<^verbatim>\<open>a\<close> only and the second written field does not appear.
\<close>

theorem coalescing_proto_dropped:
  "ticks (writeProto Push) =
     [\<lparr>tickRoute = 0, tickRouter = 0, tickMode = Push\<rparr>,
      \<lparr>tickRoute = 0, tickRouter = 0, tickMode = Push\<rparr>]
   \<and> queriesQueue (writeProto Push) 0
       = [(''a'', Scalar (Str ''1'')), (''__proto__'', Scalar (Str ''2''))]
   \<and> calls (flushTicks (writeProto Push))
       = [(0, Push, \<lparr>params = [], query = [(''a'', Scalar (Str ''1''))], hash = ''''\<rparr>)]
   \<and> pendingAtCall (flushTicks (writeProto Push)) = [[]]
   \<and> queriesQueue (flushTicks (writeProto Push)) 0 = []"
  by (simp add: writeProto_def protoConfig_def protoCache_def write_defs flush_defs)

section \<open>Scheduling of the flush\<close>

text \<open>
  C6, as stated, fails: every changed write calls \<^verbatim>\<open>nextTick\<close>. After the two writes of
  the scenario "should skip router update when queue is empty", two callbacks are
  scheduled for the one router.
\<close>

theorem flush_scheduling_counterexample:
  "ticks (writeBoth Push) =
     [\<lparr>tickRoute = 0, tickRouter = 0, tickMode = Push\<rparr>,
      \<lparr>tickRoute = 0, tickRouter = 0, tickMode = Push\<rparr>]"
  by (simp add: write_defs)

text \<open>
  C6, amended. Every changed write schedules one callback of its own, whether or not one
  is already scheduled for the router. A callback that finds the pending set of its router
  empty does nothing. So when the scheduled callbacks run, a router is called once if its
  pending set is not empty and a callback for it is scheduled, and not at all otherwise:
  the first such callback commits and empties the set, the later ones find it empty.
\<close>

theorem flush_scheduling:
  "(transformToQuery cfg x = Inr raw \<and> \<not> areQueryValuesEqual raw (cachedRawValue c)
      \<and> proxy_set cfg x (c, e) = (res, c', e')
      \<longrightarrow> ticks e' = ticks e @
            [\<lparr>tickRoute = route cfg, tickRouter = router cfg, tickMode = mode cfg\<rparr>])
   \<and> (queriesQueue ei (tickRouter t) = [] \<longrightarrow> flushCallback t ei = ei)
   \<and> commitsTo rr (flushTicks et) =
       commitsTo rr et
       + (if queriesQueue et rr \<noteq> [] \<and> rr \<in> tickRouter ` set (ticks et) then 1 else 0)"
proof (intro conjI impI)
  assume "transformToQuery cfg x = Inr raw \<and> \<not> areQueryValuesEqual raw (cachedRawValue c)
      \<and> proxy_set cfg x (c, e) = (res, c', e')"
  then show "ticks e' = ticks e @
      [\<lparr>tickRoute = route cfg, tickRouter = router cfg, tickMode = mode cfg\<rparr>]"
    by (auto simp: proxy_set_changed setQueriesQueue_fields)
next
  assume "queriesQueue ei (tickRouter t) = []"
  then show "flushCallback t ei = ei"
    by (rule flushCallback_empty)
next
  have "commitsTo rr (et\<lparr>ticks := []\<rparr>) = commitsTo rr et"
    by (simp add: commitsTo_def)
  then show "commitsTo rr (flushTicks et) =
       commitsTo rr et
       + (if queriesQueue et rr \<noteq> [] \<and> rr \<in> tickRouter ` set (ticks et) then 1 else 0)"
    using runTicks_commits [of rr "ticks et" "et\<lparr>ticks := []\<rparr>"]
    by (simp add: flushTicks_def)
qed

theorem flush_scheduling_witness:
  "transformToQuery (bConfig Push) (Scalar (Str ''2'')) = Inr (Scalar (Str ''2''))
   \<and> \<not> areQueryValuesEqual (Scalar (Str ''2'')) (cachedRawValue unsetCache)
   \<and> snd (snd (proxy_set (bConfig Push) (Scalar (Str ''2'')) (unsetCache, afterA)))
       = writeBoth Push
   \<and> ticks afterA = [\<lparr>tickRoute = 0, tickRouter = 0, tickMode = Push\<rparr>]
   \<and> ticks (writeBoth Push) = ticks afterA @ [\<lparr>tickRoute = 0, tickRouter = 0, tickMode = Push\<rparr>]
   \<and> queriesQueue (flushTicks afterA) 0 = []
   \<and> flushCallback \<lparr>tickRoute = 0, tickRouter = 0, tickMode = Push\<rparr> (flushTicks afterA)
       = flushTicks afterA
   \<and> commitsTo 0 (writeBoth Push) = 0
   \<and> commitsTo 0 (flushTicks (writeBoth Push)) = 1"
  using flush_scheduling [of "bConfig Push" "Scalar (Str ''2'')" "Scalar (Str ''2'')" unsetCache
      afterA
      "fst (proxy_set (bConfig Push) (Scalar (Str ''2'')) (unsetCache, afterA))"
      "fst (snd (proxy_set (bConfig Push) (Scalar (Str ''2'')) (unsetCache, afterA)))"
      "writeBoth Push"
      "flushTicks afterA" "\<lparr>tickRoute = 0, tickRouter = 0, tickMode = Push\<rparr>"
      0 "writeBoth Push"]
  by (simp add: write_defs flush_defs commitsTo_def)

section \<open>The mode of a coalesced commit\<close>





end
